theory Spec2Isabelle
  imports Complex_Main
begin

section \<open>Client-side synchronisation core (ClientGame.js)\<close>

text \<open>
  A shallow embedding of \<^verbatim>\<open>src/client/game/ClientGame.js\<close>. The closure variables of
  \<^verbatim>\<open>ClientGame\<close> become the fields of the record \<open>client\<close>; every function of the
  module becomes a function from a client state to the next state, or to an outcome when it
  can raise. JavaScript numbers that hold
  times and coordinates are idealised as reals (no rounding); the special results of a division
  by zero are made explicit in \<open>js_divide\<close>. Sequence numbers and list indices are integers.
  A \<^verbatim>\<open>TypeError\<close> raised by the source (a method called on \<^verbatim>\<open>undefined\<close> or
  \<^verbatim>\<open>null\<close>) is the outcome \<open>Threw\<close>, which carries the state as it was when the
  exception left the function: earlier assignments are not undone by a throw.
\<close>

subsection \<open>Numbers and vectors\<close>

datatype js_error = TypeError

datatype 's outcome = Normal 's | Threw js_error 's

fun state_of :: "'s outcome \<Rightarrow> 's" where
  "state_of (Normal s) = s"
| "state_of (Threw e s) = s"

fun andThen :: "'s outcome \<Rightarrow> ('s \<Rightarrow> 's outcome) \<Rightarrow> 's outcome" where
  "andThen (Normal s) f = f s"
| "andThen (Threw e s) f = Threw e s"

text \<open>The result of a JavaScript division of two finite numbers.\<close>

datatype jsnum = Finite real | NaN | PosInfinity | NegInfinity

definition js_divide :: "real \<Rightarrow> real \<Rightarrow> jsnum" where
  "js_divide a b =
     (if b = 0 then (if a = 0 then NaN else if 0 < a then PosInfinity else NegInfinity)
      else Finite (a / b))"

record position =
  px :: real
  py :: real

text \<open>\<^verbatim>\<open>interpolate (p, n, interpolation)\<close>, lines 8-12.\<close>

definition interpolate :: "real \<Rightarrow> real \<Rightarrow> real \<Rightarrow> real" where
  "interpolate p n interpolation =
     (let interpolation = max 0 (min 1 interpolation)
      in p + interpolation * (n - p))"

text \<open>\<^verbatim>\<open>lerp (a, b, interpolation)\<close>, lines 14-19.\<close>

definition lerp :: "position \<Rightarrow> position \<Rightarrow> real \<Rightarrow> position" where
  "lerp a b interpolation =
     \<lparr> px = interpolate (px a) (px b) interpolation,
       py = interpolate (py a) (py b) interpolation \<rparr>"

subsection \<open>Data model\<close>

type_synonym pid = string
type_synonym ref = nat

text \<open>The input frame built by \<^verbatim>\<open>updateInput\<close> (lines 102-106).\<close>

record input_frame =
  inputs :: "string list"
  time :: real
  seq :: int

text \<open>
  Modelled from the spec: the player class is not part of the sources. A player exposes its
  id, its position, a previous state, its list of pending inputs and its last acknowledged
  input sequence number.
\<close>

record player =
  player_id :: pid
  player_position :: position
  player_inputs :: "input_frame list"
  player_lastInputSeq :: "int option"
  player_previousState :: "position option"

text \<open>Modelled from the spec: a ghost is a position-only entity.\<close>

record ghost =
  ghost_position :: position

text \<open>The server update (snapshot) as \<^verbatim>\<open>onServerUpdate\<close> reads it.\<close>

record own_player_data =
  own_position :: position
  own_lastInputSeq :: "int option"

record player_data =
  pd_id :: pid
  pd_position :: position

record bullet =
  firedBy :: pid
  bullet_x :: real
  bullet_y :: real

record game_event =
  event_id :: string
  event_name :: string
  event_firedBy :: pid

record snapshot =
  snap_serverTime :: real
  ownPlayer :: own_player_data
  players :: "player_data list"
  bullets :: "bullet list"
  events :: "game_event list"

record options =
  networkOffset :: real
  networkBufferSize :: real
  simulationTimestep :: real
  naiveApproach :: bool
  opt_clientPrediction :: bool
  clientSmoothing :: bool

text \<open>
  Modelled from the spec: \<^verbatim>\<open>AbstractGame\<close> is not part of the sources. The game owns the
  player objects (a store from references to players), answers \<^verbatim>\<open>getPlayerById\<close>,
  keeps the simulation time, and receives the bullets and events that are replayed.
\<close>

record game =
  heap :: "ref \<Rightarrow> player"
  byId :: "pid \<rightharpoonup> ref"
  game_time :: real
  bulletsAdded :: "(ref \<times> bullet) list"
  eventsFired :: "(string \<times> string \<times> ref option) list"

text \<open>The closure variables of \<^verbatim>\<open>ClientGame\<close> (lines 22-35).\<close>

record client =
  opts :: options
  game :: game
  serverGhosts :: "pid \<rightharpoonup> ghost"
  localGhosts :: "pid \<rightharpoonup> ghost"
  network :: bool
  renderer :: bool
  localPlayer :: "ref option"
  inputSeq :: int
  clientTime :: real
  serverTime :: real
  serverUpdates :: "snapshot list"
  sent :: "string list"
  pushed :: "input_frame list"

text \<open>
  \<open>network\<close> and \<open>renderer\<close> say whether the collaborator is attached (not \<^verbatim>\<open>null\<close>).
  The last two fields are not variables of the source: \<open>sent\<close> lists the strings handed to
  \<^verbatim>\<open>network.send\<close> and \<open>pushed\<close> the frames handed to \<^verbatim>\<open>pushInput\<close>, oldest first. No
  function reads them.
\<close>

subsection \<open>Player and game operations\<close>

text \<open>
  Modelled from the spec: \<^verbatim>\<open>clearInputs (n)\<close> discards the \<open>n\<close> oldest pending inputs,
  \<^verbatim>\<open>pushInput\<close> appends to the tail of the pending list, the setters overwrite.
\<close>

definition clearInputs :: "nat \<Rightarrow> player \<Rightarrow> player" where
  "clearInputs numberToClear p = p\<lparr>player_inputs := drop numberToClear (player_inputs p)\<rparr>"

definition pushInput :: "input_frame \<Rightarrow> player \<Rightarrow> player" where
  "pushInput f p = p\<lparr>player_inputs := player_inputs p @ [f]\<rparr>"

definition setPosition :: "real \<Rightarrow> real \<Rightarrow> player \<Rightarrow> player" where
  "setPosition x y p = p\<lparr>player_position := \<lparr> px = x, py = y \<rparr>\<rparr>"

definition setLastInputSeq :: "int \<Rightarrow> player \<Rightarrow> player" where
  "setLastInputSeq n p = p\<lparr>player_lastInputSeq := Some n\<rparr>"

definition ghost_setPosition :: "real \<Rightarrow> real \<Rightarrow> ghost \<Rightarrow> ghost" where
  "ghost_setPosition x y g = g\<lparr>ghost_position := \<lparr> px = x, py = y \<rparr>\<rparr>"

text \<open>A method call on the player object behind a reference.\<close>

definition onPlayer :: "ref \<Rightarrow> (player \<Rightarrow> player) \<Rightarrow> client \<Rightarrow> client" where
  "onPlayer r f s = s\<lparr>game := (game s)\<lparr>heap := (heap (game s))(r := f (heap (game s) r))\<rparr>\<rparr>"

definition getPlayer :: "client \<Rightarrow> ref \<Rightarrow> player" where
  "getPlayer s r = heap (game s) r"

subsection \<open>Reconciliation: \<^verbatim>\<open>clientPrediction\<close>\<close>

text \<open>
  The scan of lines 134-139: the index of the first pending input whose \<open>seq\<close> is the
  acknowledged one, counted from \<open>i\<close>; \<open>None\<close> stands for the initial \<open>-1\<close>.
\<close>

fun findSeqIndex :: "int \<Rightarrow> input_frame list \<Rightarrow> nat \<Rightarrow> nat option" where
  "findSeqIndex serverInputSeq [] i = None"
| "findSeqIndex serverInputSeq (f # fs) i =
     (if seq f = serverInputSeq then Some i else findSeqIndex serverInputSeq fs (Suc i))"

text \<open>Lines 142-156: the crop of the acknowledged inputs and the snap to the server position.\<close>

definition acknowledge :: "ref \<Rightarrow> snapshot \<Rightarrow> nat \<Rightarrow> client \<Rightarrow> client" where
  "acknowledge r latestServerUpdate lastInputSeqIndex s =
     (let numberToClear = nat \<bar>int lastInputSeqIndex - (- 1)\<bar>;
          s = onPlayer r (clearInputs numberToClear) s;
          x = px (own_position (ownPlayer latestServerUpdate));
          y = py (own_position (ownPlayer latestServerUpdate));
          s = onPlayer r (setPosition x y) s
      in onPlayer r (setLastInputSeq (int lastInputSeqIndex)) s)"

text \<open>Lines 158-163: the debug server ghost of the local player.\<close>

definition updateServerGhost :: "ref \<Rightarrow> snapshot \<Rightarrow> client \<Rightarrow> client outcome" where
  "updateServerGhost r latestServerUpdate s =
     (case serverGhosts s (player_id (getPlayer s r)) of
        None \<Rightarrow> Threw TypeError s
      | Some serverGhost \<Rightarrow>
          let x = px (own_position (ownPlayer latestServerUpdate));
              y = py (own_position (ownPlayer latestServerUpdate))
          in Normal (s\<lparr>serverGhosts := (serverGhosts s)
                (player_id (getPlayer s r) \<mapsto> ghost_setPosition x y serverGhost)\<rparr>))"

text \<open>
  \<^verbatim>\<open>clientPrediction ()\<close>, lines 120-165. A sequence number is falsy when it is absent or
  \<open>0\<close>. Reading \<^verbatim>\<open>ownPlayer\<close> of an empty buffer's last element and calling a method of a
  \<^verbatim>\<open>null\<close> local player raise.
\<close>

definition clientPrediction :: "client \<Rightarrow> client outcome" where
  "clientPrediction s =
     (if serverUpdates s = [] then Threw TypeError s
      else
        let latestServerUpdate = last (serverUpdates s) in
        case own_lastInputSeq (ownPlayer latestServerUpdate) of
          None \<Rightarrow> Normal s
        | Some serverInputSeq \<Rightarrow>
            if serverInputSeq = 0 then Normal s
            else
              (case localPlayer s of
                 None \<Rightarrow> Threw TypeError s
               | Some r \<Rightarrow>
                   let localInputs = player_inputs (getPlayer s r);
                       s = (case findSeqIndex serverInputSeq localInputs 0 of
                              None \<Rightarrow> s
                            | Some lastInputSeqIndex \<Rightarrow>
                                acknowledge r latestServerUpdate lastInputSeqIndex s)
                   in updateServerGhost r latestServerUpdate s))"

subsection \<open>Input capture: \<^verbatim>\<open>updateInput\<close>\<close>

text \<open>\<^verbatim>\<open>Array.prototype.join\<close> on an array of strings.\<close>

fun join :: "string \<Rightarrow> string list \<Rightarrow> string" where
  "join sep [] = []"
| "join sep [a] = a"
| "join sep (a # b # rest) = a @ sep @ join sep (b # rest)"

text \<open>
  \<^verbatim>\<open>String.prototype.replace\<close> with a one-character string pattern: only the first
  occurrence is replaced.
\<close>

fun replace :: "char \<Rightarrow> char \<Rightarrow> string \<Rightarrow> string" where
  "replace a b [] = []"
| "replace a b (c # cs) = (if c = a then b # cs else c # replace a b cs)"

text \<open>
  \<^verbatim>\<open>updateInput ()\<close>, lines 95-118. The list polled from the input handler is the argument
  \<open>input\<close>. The conversion of a number to its decimal string is the language's own
  (\<^verbatim>\<open>Number.prototype.toString\<close>, also used by \<^verbatim>\<open>data += inputSeq\<close>); it is the parameter
  \<open>toString\<close>.
\<close>

definition updateInput :: "(real \<Rightarrow> string) \<Rightarrow> string list \<Rightarrow> client \<Rightarrow> client" where
  "updateInput toString input s =
     (if 0 < length input then
        (case localPlayer s of
           None \<Rightarrow> s
         | Some r \<Rightarrow>
             let s = s\<lparr>inputSeq := inputSeq s + 1\<rparr>;
                 frame = \<lparr> inputs = input, time = game_time (game s), seq = inputSeq s \<rparr>;
                 s = (onPlayer r (pushInput frame) s)\<lparr>pushed := pushed s @ [frame]\<rparr>
             in if network s then
                  let data = ''i.'';
                      data = data @ join ''-'' input @ ''.'';
                      data = data @ replace (CHR ''.'') (CHR ''-'') (toString (game_time (game s)))
                               @ ''.'';
                      data = data @ toString (of_int (inputSeq s))
                  in s\<lparr>sent := sent s @ [data]\<rparr>
                else s)
      else s)"

subsection \<open>Snapshot arrival: \<^verbatim>\<open>onServerUpdate\<close>\<close>

text \<open>Modelled from the spec: the bullet system and the event handler record what they get.\<close>

definition addBullet :: "ref \<Rightarrow> bullet \<Rightarrow> client \<Rightarrow> client" where
  "addBullet r b s = s\<lparr>game := (game s)\<lparr>bulletsAdded := bulletsAdded (game s) @ [(r, b)]\<rparr>\<rparr>"

definition onEvent :: "string \<times> string \<Rightarrow> ref option \<Rightarrow> client \<Rightarrow> client" where
  "onEvent e r s =
     s\<lparr>game := (game s)\<lparr>eventsFired := eventsFired (game s) @ [(fst e, snd e, r)]\<rparr>\<rparr>"

text \<open>
  The bullet loops (lines 187-194, 321-329, 366-374): the bullet is a copy of the reported one
  with \<open>x\<close> and \<open>y\<close> overwritten by the position the firing player has when the loop
  reaches the bullet. An unknown firing player raises. The naive branch reads the property
  \<^verbatim>\<open>player.position\<close> where the other two call \<^verbatim>\<open>getPosition\<close>; both are taken to be
  the position of the player.
\<close>

fun replayBullets :: "bullet list \<Rightarrow> client \<Rightarrow> client outcome" where
  "replayBullets [] s = Normal s"
| "replayBullets (bullet # rest) s =
     (case byId (game s) (firedBy bullet) of
        None \<Rightarrow> Threw TypeError s
      | Some player \<Rightarrow>
          let position = player_position (getPlayer s player)
          in replayBullets rest
               (addBullet player (bullet\<lparr>bullet_x := px position, bullet_y := py position\<rparr>) s))"

text \<open>The event loops (lines 196-203, 331-338, 376-383).\<close>

fun replayEvents :: "game_event list \<Rightarrow> client \<Rightarrow> client" where
  "replayEvents [] s = s"
| "replayEvents (eventData # rest) s =
     (let player = byId (game s) (event_firedBy eventData)
      in replayEvents rest (onEvent (event_id eventData, event_name eventData) player s))"

text \<open>Lines 181-185 of the naive branch.\<close>

fun setPlayers :: "player_data list \<Rightarrow> client \<Rightarrow> client outcome" where
  "setPlayers [] s = Normal s"
| "setPlayers (playerData # rest) s =
     (case byId (game s) (pd_id playerData) of
        None \<Rightarrow> Threw TypeError s
      | Some player \<Rightarrow>
          setPlayers rest
            (onPlayer player
               (setPosition (px (pd_position playerData)) (py (pd_position playerData))) s))"

definition naiveUpdate :: "snapshot \<Rightarrow> client \<Rightarrow> client outcome" where
  "naiveUpdate data s =
     (case localPlayer s of
        None \<Rightarrow> Threw TypeError s
      | Some r \<Rightarrow>
          let s = onPlayer r
                    (setPosition (px (own_position (ownPlayer data)))
                       (py (own_position (ownPlayer data)))) s
          in andThen (setPlayers (players data) s) (\<lambda>s.
             andThen (replayBullets (bullets data) s) (\<lambda>s.
             Normal (replayEvents (events data) s))))"

text \<open>Lines 209-215: the push and the capacity policy.\<close>

definition pushUpdate :: "snapshot \<Rightarrow> client \<Rightarrow> client" where
  "pushUpdate data s =
     (let s = s\<lparr>serverUpdates := serverUpdates s @ [data]\<rparr>
      in if 60 * networkBufferSize (opts s) \<le> real (length (serverUpdates s))
         then s\<lparr>serverUpdates := drop 1 (serverUpdates s)\<rparr>
         else s)"

text \<open>
  \<^verbatim>\<open>onServerUpdate (data)\<close>, lines 167-232. \<^verbatim>\<open>game.update\<close> belongs to
  \<^verbatim>\<open>AbstractGame\<close>; it is the parameter \<open>gameUpdate\<close>, which acts on the game.
\<close>

definition onServerUpdate ::
  "(real \<Rightarrow> game \<Rightarrow> game) \<Rightarrow> snapshot \<Rightarrow> client \<Rightarrow> client outcome" where
  "onServerUpdate gameUpdate data s =
     (let s = s\<lparr>serverTime := snap_serverTime data\<rparr>;
          s = s\<lparr>clientTime := serverTime s - networkOffset (opts s) / 1000\<rparr>
      in if naiveApproach (opts s) then naiveUpdate data s
         else
           let s = pushUpdate data s
           in if 0 < length (serverUpdates s) then
                (case localPlayer s of
                   None \<Rightarrow> Normal s
                 | Some r \<Rightarrow>
                     andThen (clientPrediction s) (\<lambda>s.
                       let delta = simulationTimestep (opts s)
                       in Normal (s\<lparr>game := gameUpdate delta (game s)\<rparr>)))
              else Normal s)"

subsection \<open>Interpolation: \<^verbatim>\<open>processNetworkUpdates\<close>\<close>

text \<open>
  The timeline search of lines 249-259, oldest pair first; the result is
  \<open>(previous, target)\<close>.
\<close>

fun findBracket :: "real \<Rightarrow> snapshot list \<Rightarrow> (snapshot \<times> snapshot) option" where
  "findBracket t (point # nextPoint # rest) =
     (if snap_serverTime point < t \<and> t < snap_serverTime nextPoint
      then Some (point, nextPoint)
      else findBracket t (nextPoint # rest))"
| "findBracket t [point] = None"
| "findBracket t [] = None"

text \<open>Lines 263-266: with no target, the first buffered update is both ends.\<close>

definition timelinePair :: "real \<Rightarrow> snapshot \<Rightarrow> snapshot list \<Rightarrow> snapshot \<times> snapshot" where
  "timelinePair t first updates =
     (case findBracket t updates of
        Some (previous, target) \<Rightarrow> (previous, target)
      | None \<Rightarrow> (first, first))"

text \<open>Lines 277-285.\<close>

definition timePointOf :: "real \<Rightarrow> snapshot \<Rightarrow> snapshot \<Rightarrow> real" where
  "timePointOf t previous target =
     (let difference = snap_serverTime target - t;
          max_difference = snap_serverTime target - snap_serverTime previous
      in case js_divide difference max_difference of
           Finite timePoint \<Rightarrow> timePoint
         | NaN \<Rightarrow> 0
         | PosInfinity \<Rightarrow> 0
         | NegInfinity \<Rightarrow> 0)"

text \<open>
  The body of the loop over the players of the latest update (lines 291-340), for the entry
  \<open>playerData\<close> at index \<open>i\<close>. An array element is truthy exactly when the index is
  in range.
\<close>

definition renderPlayer ::
  "real \<Rightarrow> snapshot \<Rightarrow> snapshot \<Rightarrow> real \<Rightarrow> nat \<Rightarrow> player_data \<Rightarrow> client \<Rightarrow> client outcome" where
  "renderPlayer interpolation previous target timePoint i playerData s =
     (let serverPosition = pd_position playerData
      in if i < length (players target) \<and> i < length (players previous) then
          (let targetPosition = pd_position (players target ! i);
               previousPosition = pd_position (players previous ! i)
           in case byId (game s) (pd_id playerData) of
                None \<Rightarrow> Normal s
              | Some player \<Rightarrow>
                 (case serverGhosts s (pd_id playerData) of
                    None \<Rightarrow> Threw TypeError s
                  | Some server \<Rightarrow>
                     let s = s\<lparr>serverGhosts := (serverGhosts s)(pd_id playerData \<mapsto>
                                 ghost_setPosition (px serverPosition) (py serverPosition) server)\<rparr>;
                         localGhostPosition = lerp previousPosition targetPosition timePoint
                     in (case localGhosts s (pd_id playerData) of
                          None \<Rightarrow> Threw TypeError s
                        | Some local \<Rightarrow>
                           let local = ghost_setPosition (px localGhostPosition)
                                         (py localGhostPosition) local;
                               s = s\<lparr>localGhosts := (localGhosts s)(pd_id playerData \<mapsto> local)\<rparr>;
                               s = (if clientSmoothing (opts s) then
                                      let p = lerp (player_position (getPlayer s player))
                                                (ghost_position local) interpolation
                                      in onPlayer player (setPosition (px p) (py p)) s
                                    else
                                      onPlayer player
                                        (setPosition (px (ghost_position local))
                                           (py (ghost_position local))) s)
                           in andThen (replayBullets (bullets target) s) (\<lambda>s.
                                Normal (replayEvents (events target) s)))))
         else Normal s)"

fun renderPlayers ::
  "real \<Rightarrow> snapshot \<Rightarrow> snapshot \<Rightarrow> real \<Rightarrow> nat \<Rightarrow> player_data list \<Rightarrow> client \<Rightarrow> client outcome" where
  "renderPlayers interpolation previous target timePoint i [] s = Normal s"
| "renderPlayers interpolation previous target timePoint i (playerData # rest) s =
     andThen (renderPlayer interpolation previous target timePoint i playerData s)
       (renderPlayers interpolation previous target timePoint (Suc i) rest)"

text \<open>Lines 345-384: the local player, when it is not predicted.\<close>

definition renderLocalPlayer ::
  "real \<Rightarrow> snapshot \<Rightarrow> snapshot \<Rightarrow> real \<Rightarrow> snapshot \<Rightarrow> client \<Rightarrow> client outcome" where
  "renderLocalPlayer interpolation previous target timePoint latestServerUpdate s =
     (let my_target_pos = own_position (ownPlayer target);
          my_past_pos = own_position (ownPlayer previous)
      in case localPlayer s of
           None \<Rightarrow> Threw TypeError s
         | Some r \<Rightarrow>
            (case serverGhosts s (player_id (getPlayer s r)) of
               None \<Rightarrow> Threw TypeError s
             | Some server \<Rightarrow>
                let s = s\<lparr>serverGhosts := (serverGhosts s)(player_id (getPlayer s r) \<mapsto>
                            ghost_setPosition (px (own_position (ownPlayer latestServerUpdate)))
                              (py (own_position (ownPlayer latestServerUpdate))) server)\<rparr>;
                    local_target = lerp my_past_pos my_target_pos timePoint;
                    s = (if clientSmoothing (opts s) then
                           let p = lerp (player_position (getPlayer s r)) local_target interpolation
                           in onPlayer r (setPosition (px p) (py p)) s
                         else onPlayer r (setPosition (px local_target) (py local_target)) s)
                in andThen (replayBullets (bullets latestServerUpdate) s) (\<lambda>s.
                     Normal (replayEvents (events latestServerUpdate) s))))"

text \<open>
  \<^verbatim>\<open>processNetworkUpdates (interpolation)\<close>, lines 234-385. The test of line 273 never
  holds, since both ends are buffered updates.
\<close>

definition processNetworkUpdates :: "real \<Rightarrow> client \<Rightarrow> client outcome" where
  "processNetworkUpdates interpolation s =
     (case serverUpdates s of
        [] \<Rightarrow> Normal s
      | first # _ \<Rightarrow>
          let (previous, target) = timelinePair (clientTime s) first (serverUpdates s);
              timePoint = timePointOf (clientTime s) previous target;
              latestServerUpdate = last (serverUpdates s)
          in andThen
               (renderPlayers interpolation previous target timePoint 0
                  (players latestServerUpdate) s)
               (\<lambda>s. if \<not> opt_clientPrediction (opts s) \<and> \<not> naiveApproach (opts s)
                     then renderLocalPlayer interpolation previous target timePoint
                            latestServerUpdate s
                     else Normal s))"

subsection \<open>Frame handlers and the module's interface\<close>

text \<open>
  \<^verbatim>\<open>onUpdate (delta)\<close>, lines 391-403. \<^verbatim>\<open>player.update\<close> belongs to the player class; it
  is the parameter \<open>playerUpdate\<close>.
\<close>

definition onUpdate ::
  "(real \<Rightarrow> string) \<Rightarrow> (real \<Rightarrow> player \<Rightarrow> player) \<Rightarrow> string list \<Rightarrow> real \<Rightarrow> client \<Rightarrow> client" where
  "onUpdate toString playerUpdate input delta s =
     (let s = updateInput toString input s
      in if opt_clientPrediction (opts s) then
           (case localPlayer s of
              None \<Rightarrow> s
            | Some player \<Rightarrow>
                let s = onPlayer player (\<lambda>p. p\<lparr>player_previousState := Some (player_position p)\<rparr>) s
                in onPlayer player (playerUpdate delta) s)
         else s)"

text \<open>
  \<^verbatim>\<open>onDraw (interpolation)\<close>, lines 405-425. The renderer and the hooks do not write the
  client's variables; a missing renderer raises.
\<close>

definition onDraw :: "real \<Rightarrow> client \<Rightarrow> client outcome" where
  "onDraw interpolation s =
     andThen
       (if \<not> naiveApproach (opts s) \<and> 0 < length (serverUpdates s)
        then processNetworkUpdates interpolation s else Normal s)
       (\<lambda>s. if renderer s then Normal s else Threw TypeError s)"

text \<open>\<^verbatim>\<open>addPlayer\<close>, \<^verbatim>\<open>removePlayer\<close>, \<^verbatim>\<open>clearPlayers\<close> and the setters (lines 47-93, 387-389).\<close>

definition addPlayer :: "ref \<Rightarrow> client \<Rightarrow> client" where
  "addPlayer player s =
     (let s = s\<lparr>game := (game s)\<lparr>byId := (byId (game s))
                  (player_id (heap (game s) player) \<mapsto> player)\<rparr>\<rparr>;
          serverGhost = \<lparr> ghost_position = player_position (getPlayer s player) \<rparr>;
          localGhost = \<lparr> ghost_position = player_position (getPlayer s player) \<rparr>;
          s = s\<lparr>serverGhosts := (serverGhosts s)(player_id (getPlayer s player) \<mapsto> serverGhost)\<rparr>
      in s\<lparr>localGhosts := (localGhosts s)(player_id (getPlayer s player) \<mapsto> localGhost)\<rparr>)"

definition removePlayer :: "pid \<Rightarrow> client \<Rightarrow> client" where
  "removePlayer playerId s =
     (let s = s\<lparr>localGhosts := (localGhosts s)(playerId := None)\<rparr>;
          s = s\<lparr>serverGhosts := (serverGhosts s)(playerId := None)\<rparr>
      in s\<lparr>game := (game s)\<lparr>byId := (byId (game s))(playerId := None)\<rparr>\<rparr>)"

definition clearPlayers :: "client \<Rightarrow> client" where
  "clearPlayers s =
     (let s = s\<lparr>game := (game s)\<lparr>byId := Map.empty\<rparr>\<rparr>;
          s = s\<lparr>serverGhosts := Map.empty\<rparr>
      in s\<lparr>localGhosts := Map.empty\<rparr>)"

definition setLocalPlayer :: "ref option \<Rightarrow> client \<Rightarrow> client" where
  "setLocalPlayer player s = s\<lparr>localPlayer := player\<rparr>"

definition setNetwork :: "bool \<Rightarrow> client \<Rightarrow> client" where
  "setNetwork v s = s\<lparr>network := v\<rparr>"

definition setRenderer :: "bool \<Rightarrow> client \<Rightarrow> client" where
  "setRenderer v s = s\<lparr>renderer := v\<rparr>"

text \<open>The state right after \<^verbatim>\<open>ClientGame ({ options })\<close> (lines 22-35).\<close>

definition initial :: "options \<Rightarrow> game \<Rightarrow> client" where
  "initial options g =
     \<lparr> opts = options, game = g, serverGhosts = Map.empty, localGhosts = Map.empty,
       network = False, renderer = False, localPlayer = None, inputSeq = 0,
       clientTime = 0, serverTime = 0, serverUpdates = [], sent = [], pushed = [] \<rparr>"

text \<open>
  A session is a sequence of calls into the module. \<open>Outside\<close> is any change that other
  code makes to the game and its players between two calls.
\<close>

datatype call =
    AddPlayer ref
  | RemovePlayer pid
  | ClearPlayers
  | SetLocalPlayer "ref option"
  | SetNetwork bool
  | SetRenderer bool
  | OnServerUpdate snapshot
  | OnUpdate "string list" real
  | OnDraw real
  | Outside "game \<Rightarrow> game"

fun step ::
  "(real \<Rightarrow> string) \<Rightarrow> (real \<Rightarrow> game \<Rightarrow> game) \<Rightarrow> (real \<Rightarrow> player \<Rightarrow> player) \<Rightarrow>
   call \<Rightarrow> client \<Rightarrow> client outcome" where
  "step toString gameUpdate playerUpdate (AddPlayer player) s = Normal (addPlayer player s)"
| "step toString gameUpdate playerUpdate (RemovePlayer playerId) s = Normal (removePlayer playerId s)"
| "step toString gameUpdate playerUpdate ClearPlayers s = Normal (clearPlayers s)"
| "step toString gameUpdate playerUpdate (SetLocalPlayer player) s = Normal (setLocalPlayer player s)"
| "step toString gameUpdate playerUpdate (SetNetwork v) s = Normal (setNetwork v s)"
| "step toString gameUpdate playerUpdate (SetRenderer v) s = Normal (setRenderer v s)"
| "step toString gameUpdate playerUpdate (OnServerUpdate data) s = onServerUpdate gameUpdate data s"
| "step toString gameUpdate playerUpdate (OnUpdate input delta) s =
     Normal (onUpdate toString playerUpdate input delta s)"
| "step toString gameUpdate playerUpdate (OnDraw interpolation) s = onDraw interpolation s"
| "step toString gameUpdate playerUpdate (Outside f) s = Normal (s\<lparr>game := f (game s)\<rparr>)"

text \<open>A throw ends the call; the next call finds the state the throw left.\<close>

fun run ::
  "(real \<Rightarrow> string) \<Rightarrow> (real \<Rightarrow> game \<Rightarrow> game) \<Rightarrow> (real \<Rightarrow> player \<Rightarrow> player) \<Rightarrow>
   call list \<Rightarrow> client \<Rightarrow> client" where
  "run toString gameUpdate playerUpdate [] s = s"
| "run toString gameUpdate playerUpdate (c # cs) s =
     run toString gameUpdate playerUpdate cs (state_of (step toString gameUpdate playerUpdate c s))"

subsection \<open>Concrete sessions\<close>

text \<open>Three players, the first of them local, each with its two ghosts.\<close>

definition ex_player :: "pid \<Rightarrow> real \<Rightarrow> real \<Rightarrow> player" where
  "ex_player i x y =
     \<lparr> player_id = i, player_position = \<lparr> px = x, py = y \<rparr>, player_inputs = [],
       player_lastInputSeq = None, player_previousState = None \<rparr>"

definition ex_options :: options where
  "ex_options =
     \<lparr> networkOffset = 750, networkBufferSize = 2, simulationTimestep = 1 / 60,
       naiveApproach = False, opt_clientPrediction = True, clientSmoothing = False \<rparr>"

definition ex_game :: game where
  "ex_game =
     \<lparr> heap = (\<lambda>r. if r = 0 then ex_player ''me'' 0 0
                   else if r = 1 then ex_player ''p2'' 0 0 else ex_player ''p3'' 0 0),
       byId = Map.empty, game_time = 12.345, bulletsAdded = [], eventsFired = [] \<rparr>"

definition ex_client :: client where
  "ex_client =
     setLocalPlayer (Some 0) (addPlayer 2 (addPlayer 1 (addPlayer 0 (initial ex_options ex_game))))"

definition ex_frame :: "int \<Rightarrow> input_frame" where
  "ex_frame n = \<lparr> inputs = [''up''], time = 0, seq = n \<rparr>"

definition ex_update :: "real \<Rightarrow> int option \<Rightarrow> snapshot" where
  "ex_update t ack =
     \<lparr> snap_serverTime = t,
       ownPlayer = \<lparr> own_position = \<lparr> px = 5, py = 5 \<rparr>, own_lastInputSeq = ack \<rparr>,
       players = [], bullets = [], events = [] \<rparr>"

text \<open>Pending inputs 3, 4, 5, 6 and a newest update that acknowledges 4.\<close>

definition ex_pending :: client where
  "ex_pending =
     (onPlayer 0 (\<lambda>p. p\<lparr>player_inputs := map ex_frame [3, 4, 5, 6]\<rparr>) ex_client)
       \<lparr>serverUpdates := [ex_update 10 (Some 4)]\<rparr>"

text \<open>Pending inputs 1, 2 and a newest update that acknowledges nothing.\<close>

definition ex_unacked :: client where
  "ex_unacked =
     (onPlayer 0 (\<lambda>p. p\<lparr>player_inputs := map ex_frame [1, 2]\<rparr>) ex_client)
       \<lparr>serverUpdates := [ex_update 10 None]\<rparr>"

text \<open>Two buffered updates, at server times 10 and 11, and a render time after both.\<close>

definition ex_late :: client where
  "ex_late = ex_client\<lparr>clientTime := 11.5, serverUpdates := [ex_update 10 None, ex_update 11 None]\<rparr>"

text \<open>The decimal strings of the two numbers the capture below converts.\<close>

definition ex_toString :: "real \<Rightarrow> string" where
  "ex_toString v = (if v = 12.345 then ''12.345'' else if v = 7 then ''7'' else ''0'')"

text \<open>A network is attached and six frames have been captured so far.\<close>

definition ex_connected :: client where
  "ex_connected = ex_client\<lparr>network := True, inputSeq := 6\<rparr>"

text \<open>A buffer of capacity 60 * (1 / 20) = 3 that holds two updates.\<close>

definition ex_full :: client where
  "ex_full = ex_client\<lparr>opts := ex_options\<lparr>networkBufferSize := 1 / 20\<rparr>,
                       serverUpdates := [ex_update 10 None, ex_update 11 None]\<rparr>"

text \<open>
  The variables that only \<^verbatim>\<open>updateInput\<close> and the push of a server update write: the
  options, the buffer, the sequence counter and the frames captured so far.
\<close>

definition untouched :: "client \<Rightarrow> options \<times> snapshot list \<times> int \<times> input_frame list" where
  "untouched s = (opts s, serverUpdates s, inputSeq s, pushed s)"

text \<open>
  A session: a capture before any local player is set, three captures after (one of them
  empty) and a server update in between.
\<close>

definition ex_session :: "call list" where
  "ex_session =
     [OnUpdate [''up''] 1, AddPlayer 0, SetLocalPlayer (Some 0), OnUpdate [''up''] 1, OnUpdate [] 1,
      OnServerUpdate (ex_update 10 (Some 1)), OnUpdate [''left'', ''up''] 1]"

text \<open>
  A timeline for the interpolation pass: two remote players, reported at distance 0 from the
  origin at server time 10 and at distance 10 at server time 11; the later update carries a
  bullet fired by the first of them and an event fired by the second.
\<close>

definition ex_bullet :: bullet where
  "ex_bullet = \<lparr> firedBy = ''p2'', bullet_x = 3, bullet_y = 4 \<rparr>"

definition ex_event :: game_event where
  "ex_event = \<lparr> event_id = ''e1'', event_name = ''hit'', event_firedBy = ''p3'' \<rparr>"

definition ex_snap :: "real \<Rightarrow> real \<Rightarrow> bullet list \<Rightarrow> game_event list \<Rightarrow> snapshot" where
  "ex_snap t x bs es =
     \<lparr> snap_serverTime = t,
       ownPlayer = \<lparr> own_position = \<lparr> px = 5, py = 5 \<rparr>, own_lastInputSeq = None \<rparr>,
       players = [\<lparr> pd_id = ''p2'', pd_position = \<lparr> px = x, py = 0 \<rparr> \<rparr>,
                  \<lparr> pd_id = ''p3'', pd_position = \<lparr> px = 0, py = x \<rparr> \<rparr>],
       bullets = bs, events = es \<rparr>"

definition ex_timeline :: "real \<Rightarrow> client" where
  "ex_timeline t =
     ex_client\<lparr>clientTime := t, serverTime := 11,
               serverUpdates := [ex_snap 10 0 [] [], ex_snap 11 10 [ex_bullet] [ex_event]]\<rparr>"

section \<open>Properties\<close>

subsection \<open>Auxiliary facts\<close>

lemma findSeqIndex_first:
  "i < length fs \<Longrightarrow> seq (fs ! i) = q \<Longrightarrow> \<forall>j < i. seq (fs ! j) \<noteq> q \<Longrightarrow>
     findSeqIndex q fs k = Some (k + i)"
proof (induction fs arbitrary: i k)
  case Nil
  then show ?case by simp
next
  case (Cons f fs)
  show ?case
  proof (cases i)
    case 0
    with Cons.prems show ?thesis by simp
  next
    case (Suc i')
    with Cons.prems have "seq f \<noteq> q" by auto
    moreover have "findSeqIndex q fs (Suc k) = Some (Suc k + i')"
      using Cons.prems Suc by (intro Cons.IH) auto
    ultimately show ?thesis using Suc by simp
  qed
qed

lemma findSeqIndex_None: "findSeqIndex q fs k = None \<longleftrightarrow> q \<notin> seq ` set fs"
  by (induction fs arbitrary: k) auto

lemmas player_ops = onPlayer_def getPlayer_def clearInputs_def setPosition_def setLastInputSeq_def

lemma position_eta: "\<lparr> px = px p, py = py p \<rparr> = (p::position)"
  by simp

lemma numberToClear_eq: "nat (int i + 1) = Suc i"
  by arith

lemma acknowledge_player:
  "getPlayer (acknowledge r u i s) r =
     (getPlayer s r)\<lparr>player_inputs := drop (Suc i) (player_inputs (getPlayer s r)),
                     player_position := own_position (ownPlayer u),
                     player_lastInputSeq := Some (int i)\<rparr>"
  by (simp add: acknowledge_def player_ops Let_def numberToClear_eq position_eta)

lemma updateServerGhost_game: "game (state_of (updateServerGhost r u s)) = game s"
  by (simp add: updateServerGhost_def Let_def split: option.splits)

lemma getPlayer_cong_game: "game s = game s' \<Longrightarrow> getPlayer s r = getPlayer s' r"
  by (simp add: getPlayer_def)

lemma ex_pending_inputs: "player_inputs (getPlayer ex_pending 0) = map ex_frame [3, 4, 5, 6]"
  by (simp add: ex_pending_def ex_client_def player_ops setLocalPlayer_def addPlayer_def
      initial_def ex_game_def Let_def)

lemma ex_pending_updates: "serverUpdates ex_pending = [ex_update 10 (Some 4)]"
  by (simp add: ex_pending_def onPlayer_def)

lemma ex_pending_local: "localPlayer ex_pending = Some 0"
  by (simp add: ex_pending_def ex_client_def onPlayer_def setLocalPlayer_def)

subsection \<open>What a session leaves alone\<close>

lemma untouched_fields:
  assumes "untouched s' = untouched s"
  shows "opts s' = opts s" and "serverUpdates s' = serverUpdates s"
    and "inputSeq s' = inputSeq s" and "pushed s' = pushed s"
  using assms by (simp_all add: untouched_def)

lemma untouched_simps:
  "untouched (onPlayer r f s) = untouched s"
  "untouched (addBullet r b s) = untouched s"
  "untouched (onEvent e ro s) = untouched s"
  "untouched (s\<lparr>serverGhosts := sg\<rparr>) = untouched s"
  "untouched (s\<lparr>localGhosts := lg\<rparr>) = untouched s"
  "untouched (s\<lparr>game := gm\<rparr>) = untouched s"
  "untouched (s\<lparr>serverTime := st\<rparr>) = untouched s"
  "untouched (s\<lparr>clientTime := ct\<rparr>) = untouched s"
  by (simp_all add: untouched_def onPlayer_def addBullet_def onEvent_def)

lemma untouched_andThen:
  assumes "untouched (state_of m) = c" and "\<And>s'. untouched (state_of (f s')) = untouched s'"
  shows "untouched (state_of (andThen m f)) = c"
  using assms by (cases m) simp_all

lemma untouched_replayBullets: "untouched (state_of (replayBullets bs s)) = untouched s"
  by (induction bs arbitrary: s) (simp_all add: untouched_simps Let_def split: option.splits)

lemma untouched_replayEvents: "untouched (replayEvents es s) = untouched s"
  by (induction es arbitrary: s) (simp_all add: untouched_simps Let_def)

lemma untouched_setPlayers: "untouched (state_of (setPlayers ps s)) = untouched s"
  by (induction ps arbitrary: s) (simp_all add: untouched_simps split: option.splits)

lemma untouched_replay:
  "untouched (state_of (andThen (replayBullets bs s) (\<lambda>s. Normal (replayEvents es s))))
     = untouched s"
  by (rule untouched_andThen) (simp_all add: untouched_replayBullets untouched_replayEvents)

lemma untouched_renderPlayer:
  "untouched (state_of (renderPlayer a previous target tp i pd s)) = untouched s"
  by (simp add: renderPlayer_def Let_def untouched_replay untouched_simps split: option.splits)

lemma untouched_renderPlayers:
  "untouched (state_of (renderPlayers a previous target tp i pds s)) = untouched s"
proof (induction pds arbitrary: i s)
  case Nil
  show ?case by simp
next
  case (Cons pd pds)
  show ?case
    unfolding renderPlayers.simps
    by (rule untouched_andThen) (simp_all add: untouched_renderPlayer Cons.IH)
qed

lemma untouched_renderLocalPlayer:
  "untouched (state_of (renderLocalPlayer a previous target tp latest s)) = untouched s"
  by (simp add: renderLocalPlayer_def Let_def untouched_replay untouched_simps
      split: option.splits)

lemma untouched_processNetworkUpdates:
  "untouched (state_of (processNetworkUpdates a s)) = untouched s"
proof (cases "serverUpdates s")
  case Nil
  then show ?thesis by (simp add: processNetworkUpdates_def)
next
  case (Cons first rest)
  obtain previous target where
    p: "timelinePair (clientTime s) first (first # rest) = (previous, target)"
    by (cases "timelinePair (clientTime s) first (first # rest)")
  show ?thesis
    unfolding processNetworkUpdates_def Cons list.case p Let_def prod.case
    by (rule untouched_andThen)
       (simp_all add: untouched_renderPlayers untouched_renderLocalPlayer)
qed

lemma untouched_onDraw: "untouched (state_of (onDraw a s)) = untouched s"
  unfolding onDraw_def
  by (rule untouched_andThen) (simp_all add: untouched_processNetworkUpdates)

lemma untouched_acknowledge: "untouched (acknowledge r u i s) = untouched s"
  by (simp add: acknowledge_def Let_def untouched_simps)

lemma untouched_updateServerGhost:
  "untouched (state_of (updateServerGhost r u s)) = untouched s"
  by (simp add: updateServerGhost_def Let_def untouched_simps split: option.splits)

lemma untouched_clientPrediction: "untouched (state_of (clientPrediction s)) = untouched s"
  by (simp add: clientPrediction_def Let_def untouched_updateServerGhost untouched_acknowledge
      split: option.splits)

lemma untouched_naiveUpdate: "untouched (state_of (naiveUpdate data s)) = untouched s"
proof (cases "localPlayer s")
  case None
  then show ?thesis by (simp add: naiveUpdate_def)
next
  case (Some r)
  show ?thesis
    unfolding naiveUpdate_def Some option.case Let_def
    by (rule untouched_andThen, simp add: untouched_setPlayers untouched_simps)
       (rule untouched_replay)
qed

lemma drop_one_tl: "drop (Suc 0) xs = tl xs"
  by (cases xs) simp_all

lemma pushUpdate_updates:
  "serverUpdates (pushUpdate data s) =
     (if 60 * networkBufferSize (opts s) \<le> real (length (serverUpdates s @ [data]))
      then tl (serverUpdates s @ [data]) else serverUpdates s @ [data])"
  by (simp add: pushUpdate_def Let_def drop_one_tl del: drop_append)

lemma untouched_pushUpdate:
  "untouched (pushUpdate data s) =
     (opts s,
      (if 60 * networkBufferSize (opts s) \<le> real (length (serverUpdates s @ [data]))
       then tl (serverUpdates s @ [data]) else serverUpdates s @ [data]),
      inputSeq s, pushed s)"
  by (simp add: pushUpdate_def untouched_def Let_def drop_one_tl del: drop_append)

lemma untouched_onServerUpdate:
  "untouched (state_of (onServerUpdate gameUpdate data s)) =
     (if naiveApproach (opts s) then untouched s else untouched (pushUpdate data s))"
proof -
  let ?s = "s\<lparr>serverTime := snap_serverTime data,
              clientTime := snap_serverTime data - networkOffset (opts s) / 1000\<rparr>"
  have c: "untouched ?s = untouched s" "untouched (pushUpdate data ?s) = untouched (pushUpdate data s)"
    by (simp_all add: untouched_def pushUpdate_def Let_def)
  have "untouched (state_of (andThen (clientPrediction (pushUpdate data ?s))
          (\<lambda>s. Normal (s\<lparr>game := gameUpdate (simulationTimestep (opts s)) (game s)\<rparr>))))
        = untouched (pushUpdate data ?s)"
    by (rule untouched_andThen) (simp_all add: untouched_clientPrediction untouched_simps)
  then show ?thesis
    using c
    by (simp add: onServerUpdate_def Let_def untouched_naiveUpdate split: option.splits)
qed

lemma untouched_interface:
  "untouched (addPlayer r s) = untouched s"
  "untouched (removePlayer i s) = untouched s"
  "untouched (clearPlayers s) = untouched s"
  "untouched (setLocalPlayer ro s) = untouched s"
  "untouched (setNetwork v s) = untouched s"
  "untouched (setRenderer v s) = untouched s"
  by (simp_all add: untouched_def addPlayer_def removePlayer_def clearPlayers_def
      setLocalPlayer_def setNetwork_def setRenderer_def Let_def)

lemma untouched_updateInput:
  "untouched (updateInput toString input s) =
     (if input \<noteq> [] \<and> localPlayer s \<noteq> None
      then (opts s, serverUpdates s, inputSeq s + 1,
            pushed s @ [\<lparr> inputs = input, time = game_time (game s), seq = inputSeq s + 1 \<rparr>])
      else untouched s)"
  by (simp add: updateInput_def Let_def untouched_def onPlayer_def split: option.splits)

lemma untouched_onUpdate:
  "untouched (onUpdate toString playerUpdate input delta s)
     = untouched (updateInput toString input s)"
  by (simp add: onUpdate_def Let_def untouched_simps split: option.splits)

lemma untouched_step:
  "untouched (state_of (step toString gameUpdate playerUpdate c s)) =
     (case c of
        OnUpdate input delta \<Rightarrow> untouched (updateInput toString input s)
      | OnServerUpdate data \<Rightarrow>
          (if naiveApproach (opts s) then untouched s else untouched (pushUpdate data s))
      | _ \<Rightarrow> untouched s)"
  by (cases c)
     (simp_all add: untouched_interface untouched_onServerUpdate untouched_onDraw
        untouched_onUpdate untouched_simps)

subsection \<open>Reconciliation\<close>

text \<open>
  C2. When the newest update acknowledges a (truthy) sequence number and the first pending
  input that carries it sits at index \<open>i\<close>, reconciliation removes the \<open>i + 1\<close> oldest
  pending inputs, the matched one included, and puts the local player at the position the
  update reports for it. For pending inputs 3, 4, 5, 6 and the acknowledgement 4 the inputs
  5, 6 survive. The update of the server ghost that follows may raise; the crop and the
  position are in place by then.
\<close>

theorem reconcile_drops_through_match:
  assumes "serverUpdates s \<noteq> []"
    and "own_lastInputSeq (ownPlayer (last (serverUpdates s))) = Some q" and "q \<noteq> 0"
    and "localPlayer s = Some r"
    and "i < length (player_inputs (getPlayer s r))"
    and "seq (player_inputs (getPlayer s r) ! i) = q"
    and "\<forall>j<i. seq (player_inputs (getPlayer s r) ! j) \<noteq> q"
  shows "player_inputs (getPlayer (state_of (clientPrediction s)) r)
           = drop (i + 1) (player_inputs (getPlayer s r))
       \<and> player_position (getPlayer (state_of (clientPrediction s)) r)
           = own_position (ownPlayer (last (serverUpdates s)))"
proof -
  have f: "findSeqIndex q (player_inputs (getPlayer s r)) 0 = Some i"
    using findSeqIndex_first[OF assms(5,6,7), of 0] by simp
  have c: "clientPrediction s =
      updateServerGhost r (last (serverUpdates s))
        (acknowledge r (last (serverUpdates s)) i s)"
    using assms(1-4) f by (simp add: clientPrediction_def Let_def)
  have "getPlayer (state_of (clientPrediction s)) r
      = getPlayer (acknowledge r (last (serverUpdates s)) i s) r"
    unfolding c by (rule getPlayer_cong_game) (rule updateServerGhost_game)
  then show ?thesis by (simp add: acknowledge_player)
qed

theorem reconcile_drops_through_match_witness:
  "map seq (player_inputs (getPlayer ex_pending 0)) = [3, 4, 5, 6]
   \<and> own_lastInputSeq (ownPlayer (last (serverUpdates ex_pending))) = Some 4
   \<and> map seq (player_inputs (getPlayer (state_of (clientPrediction ex_pending)) 0)) = [5, 6]
   \<and> player_position (getPlayer (state_of (clientPrediction ex_pending)) 0) = \<lparr> px = 5, py = 5 \<rparr>"
proof -
  have "player_inputs (getPlayer (state_of (clientPrediction ex_pending)) 0)
           = drop (1 + 1) (player_inputs (getPlayer ex_pending 0))
       \<and> player_position (getPlayer (state_of (clientPrediction ex_pending)) 0)
           = own_position (ownPlayer (last (serverUpdates ex_pending)))"
    by (rule reconcile_drops_through_match[where q = 4])
       (simp_all add: ex_pending_inputs ex_pending_updates ex_pending_local ex_update_def
          ex_frame_def less_Suc_eq)
  then show ?thesis
    by (simp add: ex_pending_inputs ex_pending_updates ex_update_def ex_frame_def)
qed

text \<open>
  C9. After a match at index \<open>i\<close> of the pending list, the number handed to
  \<^verbatim>\<open>setLastInputSeq\<close> is the index \<open>i\<close>, not the sequence number of the matched frame:
  with pending inputs 3, 4, 5, 6 and the acknowledgement 4 the player stores 1.
\<close>

theorem reconcile_stores_index:
  assumes "serverUpdates s \<noteq> []"
    and "own_lastInputSeq (ownPlayer (last (serverUpdates s))) = Some q" and "q \<noteq> 0"
    and "localPlayer s = Some r"
    and "i < length (player_inputs (getPlayer s r))"
    and "seq (player_inputs (getPlayer s r) ! i) = q"
    and "\<forall>j<i. seq (player_inputs (getPlayer s r) ! j) \<noteq> q"
  shows "player_lastInputSeq (getPlayer (state_of (clientPrediction s)) r) = Some (int i)"
proof -
  have f: "findSeqIndex q (player_inputs (getPlayer s r)) 0 = Some i"
    using findSeqIndex_first[OF assms(5,6,7), of 0] by simp
  have c: "clientPrediction s =
      updateServerGhost r (last (serverUpdates s))
        (acknowledge r (last (serverUpdates s)) i s)"
    using assms(1-4) f by (simp add: clientPrediction_def Let_def)
  have "getPlayer (state_of (clientPrediction s)) r
      = getPlayer (acknowledge r (last (serverUpdates s)) i s) r"
    unfolding c by (rule getPlayer_cong_game) (rule updateServerGhost_game)
  then show ?thesis by (simp add: acknowledge_player)
qed

theorem reconcile_stores_index_witness:
  "seq (player_inputs (getPlayer ex_pending 0) ! 1) = 4
   \<and> player_lastInputSeq (getPlayer (state_of (clientPrediction ex_pending)) 0) = Some 1"
proof -
  have "player_lastInputSeq (getPlayer (state_of (clientPrediction ex_pending)) 0) = Some (int 1)"
    by (rule reconcile_stores_index[where q = 4])
       (simp_all add: ex_pending_inputs ex_pending_updates ex_pending_local ex_update_def
          ex_frame_def less_Suc_eq)
  then show ?thesis
    by (simp add: ex_pending_inputs ex_frame_def)
qed

text \<open>
  C3, amended. When the newest update carries no acknowledged sequence number, or the
  number 0, \<^verbatim>\<open>clientPrediction\<close> changes nothing at all: the pending inputs, the position
  of the local player and the server ghost stay as they were. The ghost is written inside
  the branch of line 129 only.
\<close>

theorem falsy_ack_changes_nothing:
  assumes "serverUpdates s \<noteq> []"
    and "own_lastInputSeq (ownPlayer (last (serverUpdates s))) = None
       \<or> own_lastInputSeq (ownPlayer (last (serverUpdates s))) = Some 0"
  shows "clientPrediction s = Normal s"
  using assms by (auto simp: clientPrediction_def Let_def)

lemma ex_unacked_updates: "serverUpdates ex_unacked = [ex_update 10 None]"
  by (simp add: ex_unacked_def onPlayer_def)

theorem falsy_ack_changes_nothing_witness:
  "serverUpdates ex_unacked \<noteq> []
   \<and> own_lastInputSeq (ownPlayer (last (serverUpdates ex_unacked))) = None
   \<and> clientPrediction ex_unacked = Normal ex_unacked"
proof -
  have a: "serverUpdates ex_unacked \<noteq> []" by (simp add: ex_unacked_updates)
  have b: "own_lastInputSeq (ownPlayer (last (serverUpdates ex_unacked))) = None"
    by (simp add: ex_unacked_updates ex_update_def)
  show ?thesis using a b falsy_ack_changes_nothing[OF a disjI1[OF b]] by simp
qed

lemma ex_unacked_ghost:
  "serverGhosts ex_unacked ''me'' = Some \<lparr> ghost_position = \<lparr> px = 0, py = 0 \<rparr> \<rparr>"
  by (simp add: ex_unacked_def ex_client_def onPlayer_def setLocalPlayer_def addPlayer_def
      getPlayer_def initial_def ex_game_def ex_player_def Let_def)

text \<open>
  C3, counterexample. The newest update carries no acknowledged sequence number and reports
  the local player at (5, 5); after \<^verbatim>\<open>clientPrediction\<close> the server ghost of the local
  player is still at (0, 0).
\<close>

theorem falsy_ack_ghost_counterexample:
  "serverUpdates ex_unacked \<noteq> []
   \<and> localPlayer ex_unacked = Some 0
   \<and> player_id (getPlayer ex_unacked 0) = ''me''
   \<and> own_lastInputSeq (ownPlayer (last (serverUpdates ex_unacked))) = None
   \<and> own_position (ownPlayer (last (serverUpdates ex_unacked))) = \<lparr> px = 5, py = 5 \<rparr>
   \<and> map_option ghost_position (serverGhosts (state_of (clientPrediction ex_unacked)) ''me'')
        = Some \<lparr> px = 0, py = 0 \<rparr>"
proof -
  have c: "clientPrediction ex_unacked = Normal ex_unacked"
    by (simp add: clientPrediction_def ex_unacked_updates ex_update_def)
  have l: "localPlayer ex_unacked = Some 0"
    by (simp add: ex_unacked_def ex_client_def onPlayer_def setLocalPlayer_def)
  have i: "player_id (getPlayer ex_unacked 0) = ''me''"
    by (simp add: ex_unacked_def ex_client_def player_ops setLocalPlayer_def addPlayer_def
      initial_def ex_game_def ex_player_def Let_def)
  show ?thesis
    by (simp add: c l i ex_unacked_ghost ex_unacked_updates ex_update_def)
qed

lemma acknowledge_fields:
  "serverUpdates (acknowledge r u i s) = serverUpdates s"
  "localPlayer (acknowledge r u i s) = localPlayer s"
  "serverGhosts (acknowledge r u i s) = serverGhosts s"
  by (simp_all add: acknowledge_def onPlayer_def Let_def)

lemma acknowledge_other:
  "r' \<noteq> r \<Longrightarrow> getPlayer (acknowledge r u i s) r' = getPlayer s r'"
  by (simp add: acknowledge_def player_ops Let_def)

lemma updateServerGhost_fields:
  "serverUpdates (state_of (updateServerGhost r u s)) = serverUpdates s"
  "localPlayer (state_of (updateServerGhost r u s)) = localPlayer s"
  by (simp_all add: updateServerGhost_def Let_def split: option.splits)

lemma clientPrediction_fields:
  "serverUpdates (state_of (clientPrediction s)) = serverUpdates s"
  "localPlayer (state_of (clientPrediction s)) = localPlayer s"
  by (simp_all add: clientPrediction_def Let_def updateServerGhost_fields acknowledge_fields
      split: option.splits)

text \<open>What a call of clientPrediction does to the game: nothing, or the crop and snap.\<close>

lemma clientPrediction_game:
  "game (state_of (clientPrediction s)) =
     (if serverUpdates s = [] then game s
      else case own_lastInputSeq (ownPlayer (last (serverUpdates s))) of
             None \<Rightarrow> game s
           | Some q \<Rightarrow>
               if q = 0 then game s
               else (case localPlayer s of
                       None \<Rightarrow> game s
                     | Some r \<Rightarrow>
                         (case findSeqIndex q (player_inputs (getPlayer s r)) 0 of
                            None \<Rightarrow> game s
                          | Some i \<Rightarrow> game (acknowledge r (last (serverUpdates s)) i s))))"
  by (simp add: clientPrediction_def Let_def updateServerGhost_game split: option.splits)

lemma findSeqIndex_Some_nth:
  "findSeqIndex q fs k = Some i \<Longrightarrow> k \<le> i \<and> i - k < length fs \<and> seq (fs ! (i - k)) = q"
proof (induction fs arbitrary: k)
  case Nil
  then show ?case by simp
next
  case (Cons f fs)
  show ?case
  proof (cases "seq f = q")
    case True
    with Cons.prems show ?thesis by simp
  next
    case False
    with Cons.prems have r: "findSeqIndex q fs (Suc k) = Some i" by simp
    from Cons.IH[OF r] have a: "Suc k \<le> i" "i - Suc k < length fs" "seq (fs ! (i - Suc k)) = q"
      by auto
    have e: "i - k = Suc (i - Suc k)" using a(1) by arith
    show ?thesis using a unfolding e by auto
  qed
qed

lemma distinct_after_match:
  assumes "distinct (map seq fs)" and "findSeqIndex q fs 0 = Some i"
  shows "findSeqIndex q (drop (Suc i) fs) k = None"
proof -
  from findSeqIndex_Some_nth[OF assms(2)] have i: "i < length fs" "seq (fs ! i) = q" by auto
  have "q \<notin> seq ` set (drop (Suc i) fs)"
  proof
    assume "q \<in> seq ` set (drop (Suc i) fs)"
    then obtain j where j: "j < length (drop (Suc i) fs)" "seq (drop (Suc i) fs ! j) = q"
      by (auto simp: in_set_conv_nth)
    then have "Suc i + j < length fs" "seq (fs ! (Suc i + j)) = q" by auto
    then have e: "Suc i + j < length (map seq fs)" "map seq fs ! (Suc i + j) = map seq fs ! i"
      using i by simp_all
    have "i < length (map seq fs)" using i(1) by simp
    with assms(1) e have "Suc i + j = i"
      unfolding distinct_conv_nth by blast
    then show False by simp
  qed
  then show ?thesis by (simp add: findSeqIndex_None)
qed

text \<open>
  C7. Applying \<^verbatim>\<open>clientPrediction\<close> twice in a row leaves every player, the local one
  included, where one application leaves it. When the pending sequence numbers are distinct,
  the second application finds no pending input to crop.
\<close>

theorem reconcile_twice:
  "player_position (getPlayer (state_of (clientPrediction (state_of (clientPrediction s)))) r)
     = player_position (getPlayer (state_of (clientPrediction s)) r)
   \<and> (distinct (map seq (player_inputs (getPlayer s r))) \<longrightarrow>
        player_inputs (getPlayer (state_of (clientPrediction (state_of (clientPrediction s)))) r)
          = player_inputs (getPlayer (state_of (clientPrediction s)) r))"
proof -
  define s1 where "s1 = state_of (clientPrediction s)"
  define s2 where "s2 = state_of (clientPrediction s1)"
  note f1 = clientPrediction_fields[of s, folded s1_def]
  have g1: "game s1 = game s \<or>
     (\<exists>q r0 i. serverUpdates s \<noteq> [] \<and> own_lastInputSeq (ownPlayer (last (serverUpdates s))) = Some q
        \<and> q \<noteq> 0 \<and> localPlayer s = Some r0
        \<and> findSeqIndex q (player_inputs (getPlayer s r0)) 0 = Some i
        \<and> game s1 = game (acknowledge r0 (last (serverUpdates s)) i s))"
    unfolding s1_def clientPrediction_game[of s] by (auto split: option.splits)
  have g2: "game s2 = game s1 \<or>
     (\<exists>q r0 i. serverUpdates s \<noteq> [] \<and> own_lastInputSeq (ownPlayer (last (serverUpdates s))) = Some q
        \<and> q \<noteq> 0 \<and> localPlayer s = Some r0
        \<and> findSeqIndex q (player_inputs (getPlayer s1 r0)) 0 = Some i
        \<and> game s2 = game (acknowledge r0 (last (serverUpdates s)) i s1))"
    unfolding s2_def clientPrediction_game[of s1] f1 by (auto split: option.splits)
  have pos: "player_position (getPlayer s2 r) = player_position (getPlayer s1 r)"
  proof -
    from g2 show ?thesis
    proof
      assume "game s2 = game s1"
      then show ?thesis by (simp add: getPlayer_def)
    next
      assume "\<exists>q r0 i. serverUpdates s \<noteq> [] \<and> own_lastInputSeq (ownPlayer (last (serverUpdates s))) = Some q
        \<and> q \<noteq> 0 \<and> localPlayer s = Some r0
        \<and> findSeqIndex q (player_inputs (getPlayer s1 r0)) 0 = Some i
        \<and> game s2 = game (acknowledge r0 (last (serverUpdates s)) i s1)"
      then obtain q r0 i where m2: "serverUpdates s \<noteq> []"
        "own_lastInputSeq (ownPlayer (last (serverUpdates s))) = Some q" "q \<noteq> 0"
        "localPlayer s = Some r0"
        "findSeqIndex q (player_inputs (getPlayer s1 r0)) 0 = Some i"
        "game s2 = game (acknowledge r0 (last (serverUpdates s)) i s1)" by blast
      have p2: "getPlayer s2 r = getPlayer (acknowledge r0 (last (serverUpdates s)) i s1) r"
        using m2(6) by (rule getPlayer_cong_game)
      show ?thesis
      proof (cases "r = r0")
        case False
        then show ?thesis using p2 by (simp add: acknowledge_other)
      next
        case True
        have "\<exists>i'. findSeqIndex q (player_inputs (getPlayer s r0)) 0 = Some i'
                \<and> game s1 = game (acknowledge r0 (last (serverUpdates s)) i' s)"
        proof (cases "findSeqIndex q (player_inputs (getPlayer s r0)) 0")
          case None
          then have "game s1 = game s"
            unfolding s1_def clientPrediction_game[of s] using m2 by simp
          then have "getPlayer s1 r0 = getPlayer s r0" by (simp add: getPlayer_def)
          with None m2(5) show ?thesis by simp
        next
          case (Some i')
          then have "game s1 = game (acknowledge r0 (last (serverUpdates s)) i' s)"
            unfolding s1_def clientPrediction_game[of s] using m2 by simp
          with Some show ?thesis by simp
        qed
        then obtain i' where "game s1 = game (acknowledge r0 (last (serverUpdates s)) i' s)"
          by blast
        then have "getPlayer s1 r0 = getPlayer (acknowledge r0 (last (serverUpdates s)) i' s) r0"
          by (rule getPlayer_cong_game)
        then show ?thesis using p2 True by (simp add: acknowledge_player)
      qed
    qed
  qed
  have inp: "player_inputs (getPlayer s2 r) = player_inputs (getPlayer s1 r)"
    if d: "distinct (map seq (player_inputs (getPlayer s r)))"
  proof -
    from g2 show ?thesis
    proof
      assume "game s2 = game s1"
      then show ?thesis by (simp add: getPlayer_def)
    next
      assume "\<exists>q r0 i. serverUpdates s \<noteq> [] \<and> own_lastInputSeq (ownPlayer (last (serverUpdates s))) = Some q
        \<and> q \<noteq> 0 \<and> localPlayer s = Some r0
        \<and> findSeqIndex q (player_inputs (getPlayer s1 r0)) 0 = Some i
        \<and> game s2 = game (acknowledge r0 (last (serverUpdates s)) i s1)"
      then obtain q r0 i where m2: "serverUpdates s \<noteq> []"
        "own_lastInputSeq (ownPlayer (last (serverUpdates s))) = Some q" "q \<noteq> 0"
        "localPlayer s = Some r0"
        "findSeqIndex q (player_inputs (getPlayer s1 r0)) 0 = Some i"
        "game s2 = game (acknowledge r0 (last (serverUpdates s)) i s1)" by blast
      have p2: "getPlayer s2 r = getPlayer (acknowledge r0 (last (serverUpdates s)) i s1) r"
        using m2(6) by (rule getPlayer_cong_game)
      show ?thesis
      proof (cases "r = r0")
        case False
        then show ?thesis using p2 by (simp add: acknowledge_other)
      next
        case True
        have False
        proof (cases "findSeqIndex q (player_inputs (getPlayer s r0)) 0")
          case None
          then have "game s1 = game s"
            unfolding s1_def clientPrediction_game[of s] using m2 by simp
          then have "getPlayer s1 r0 = getPlayer s r0" by (simp add: getPlayer_def)
          with None m2(5) show ?thesis by simp
        next
          case (Some i')
          then have "game s1 = game (acknowledge r0 (last (serverUpdates s)) i' s)"
            unfolding s1_def clientPrediction_game[of s] using m2 by simp
          then have "getPlayer s1 r0 = getPlayer (acknowledge r0 (last (serverUpdates s)) i' s) r0"
            by (rule getPlayer_cong_game)
          then have "player_inputs (getPlayer s1 r0) = drop (Suc i') (player_inputs (getPlayer s r0))"
            by (simp add: acknowledge_player)
          with distinct_after_match[OF d[unfolded True] Some, of 0] m2(5) show ?thesis by simp
        qed
        then show ?thesis ..
      qed
    qed
  qed
  show ?thesis using pos inp unfolding s2_def s1_def by blast
qed

theorem reconcile_twice_witness:
  "distinct (map seq (player_inputs (getPlayer ex_pending 0)))
   \<and> player_position (getPlayer (state_of (clientPrediction (state_of (clientPrediction ex_pending)))) 0)
       = player_position (getPlayer (state_of (clientPrediction ex_pending)) 0)
   \<and> player_inputs (getPlayer (state_of (clientPrediction (state_of (clientPrediction ex_pending)))) 0)
       = player_inputs (getPlayer (state_of (clientPrediction ex_pending)) 0)"
  using reconcile_twice[of ex_pending 0] by (simp add: ex_pending_inputs ex_frame_def)

subsection \<open>The snapshot buffer\<close>

text \<open>
  C5. In non-naive mode, a buffer that is within 60 * networkBufferSize before an update
  arrives (as the empty buffer is) is within it afterwards. When the length after the push
  reaches the capacity, the buffer loses exactly its oldest element; otherwise it is the old
  buffer with the update at its tail.
\<close>

theorem buffer_bounded:
  assumes "\<not> naiveApproach (opts s)"
    and "real (length (serverUpdates s)) \<le> 60 * networkBufferSize (opts s)"
  shows "real (length (serverUpdates (state_of (onServerUpdate gameUpdate data s))))
           \<le> 60 * networkBufferSize (opts s)
       \<and> serverUpdates (state_of (onServerUpdate gameUpdate data s))
           = (if 60 * networkBufferSize (opts s) \<le> real (length (serverUpdates s @ [data]))
              then tl (serverUpdates s @ [data])
              else serverUpdates s @ [data])"
proof -
  have "untouched (state_of (onServerUpdate gameUpdate data s)) = untouched (pushUpdate data s)"
    using assms(1) by (simp add: untouched_onServerUpdate)
  then have "serverUpdates (state_of (onServerUpdate gameUpdate data s))
           = serverUpdates (pushUpdate data s)"
    by (rule untouched_fields)
  also have "\<dots> = (if 60 * networkBufferSize (opts s) \<le> real (length (serverUpdates s @ [data]))
              then tl (serverUpdates s @ [data])
              else serverUpdates s @ [data])"
    by (rule pushUpdate_updates)
  finally have "serverUpdates (state_of (onServerUpdate gameUpdate data s))
           = (if 60 * networkBufferSize (opts s) \<le> real (length (serverUpdates s @ [data]))
              then tl (serverUpdates s @ [data])
              else serverUpdates s @ [data])"
    .
  then show ?thesis using assms(2) by auto
qed

theorem buffer_bounded_witness:
  "\<not> naiveApproach (opts ex_full)
   \<and> real (length (serverUpdates ex_full)) \<le> 60 * networkBufferSize (opts ex_full)
   \<and> serverUpdates (state_of (onServerUpdate (\<lambda>delta g. g) (ex_update 12 None) ex_full))
       = [ex_update 11 None, ex_update 12 None]"
proof -
  have n: "\<not> naiveApproach (opts ex_full)" by (simp add: ex_full_def ex_options_def)
  have b: "real (length (serverUpdates ex_full)) \<le> 60 * networkBufferSize (opts ex_full)"
    by (simp add: ex_full_def ex_options_def)
  show ?thesis
    using n b buffer_bounded[OF n b, of "\<lambda>delta g. g" "ex_update 12 None"]
    by (simp add: ex_full_def ex_options_def)
qed

lemma capacity_step:
  assumes "\<not> naiveApproach (opts s)"
    and "real (length (serverUpdates s)) \<le> 60 * networkBufferSize (opts s)"
  shows "opts (state_of (step toString gameUpdate playerUpdate c s)) = opts s
       \<and> real (length (serverUpdates (state_of (step toString gameUpdate playerUpdate c s))))
           \<le> 60 * networkBufferSize (opts s)"
proof -
  let ?s' = "state_of (step toString gameUpdate playerUpdate c s)"
  have "untouched ?s' = untouched s
      \<or> (\<exists>data. untouched ?s' = untouched (pushUpdate data s))
      \<or> (\<exists>n fs. untouched ?s' = (opts s, serverUpdates s, n, fs))"
    unfolding untouched_step by (cases c) (auto simp: untouched_updateInput)
  then have "opts ?s' = opts s
      \<and> (serverUpdates ?s' = serverUpdates s
           \<or> (\<exists>data. serverUpdates ?s' = serverUpdates (pushUpdate data s)))"
    unfolding untouched_pushUpdate by (auto simp: untouched_def pushUpdate_updates)
  then show ?thesis using assms(2) by (auto simp: pushUpdate_updates)
qed

text \<open>
  The bound of C5 over a whole session: with a non-negative networkBufferSize the created
  client has an empty buffer, which is within the capacity, and no call takes it beyond.
\<close>

lemma session_within_capacity:
  assumes "\<not> naiveApproach (opts s)"
    and "real (length (serverUpdates s)) \<le> 60 * networkBufferSize (opts s)"
  shows "opts (run toString gameUpdate playerUpdate cs s) = opts s
       \<and> real (length (serverUpdates (run toString gameUpdate playerUpdate cs s)))
           \<le> 60 * networkBufferSize (opts s)"
  using assms
proof (induction cs arbitrary: s)
  case Nil
  then show ?case by simp
next
  case (Cons c cs)
  let ?s' = "state_of (step toString gameUpdate playerUpdate c s)"
  from capacity_step[OF Cons.prems, of toString gameUpdate playerUpdate c]
  have o: "opts ?s' = opts s"
    and l: "real (length (serverUpdates ?s')) \<le> 60 * networkBufferSize (opts s)"
    by blast+
  have "opts (run toString gameUpdate playerUpdate cs ?s') = opts ?s'
       \<and> real (length (serverUpdates (run toString gameUpdate playerUpdate cs ?s')))
           \<le> 60 * networkBufferSize (opts ?s')"
    by (rule Cons.IH) (use o l Cons.prems in simp_all)
  then show ?case unfolding run.simps o by simp
qed

lemma created_within_capacity:
  assumes "\<not> naiveApproach options" and "0 \<le> networkBufferSize options"
  shows "real (length (serverUpdates (run toString gameUpdate playerUpdate cs (initial options g))))
           \<le> 60 * networkBufferSize options"
proof -
  have "\<not> naiveApproach (opts (initial options g))"
    "real (length (serverUpdates (initial options g)))
       \<le> 60 * networkBufferSize (opts (initial options g))"
    using assms by (simp_all add: initial_def)
  from session_within_capacity[OF this, of toString gameUpdate playerUpdate cs]
  show ?thesis by (simp add: initial_def)
qed

subsection \<open>The timeline\<close>

lemma findBracket_None_iff:
  "findBracket t us = None \<longleftrightarrow>
     (\<forall>i. Suc i < length us \<longrightarrow>
        \<not> (snap_serverTime (us ! i) < t \<and> t < snap_serverTime (us ! Suc i)))"
proof (induction t us rule: findBracket.induct)
  case (1 t point nextPoint rest)
  show ?case
  proof (cases "snap_serverTime point < t \<and> t < snap_serverTime nextPoint")
    case True
    then have "\<not> (\<forall>i. Suc i < length (point # nextPoint # rest) \<longrightarrow>
        \<not> (snap_serverTime ((point # nextPoint # rest) ! i) < t
           \<and> t < snap_serverTime ((point # nextPoint # rest) ! Suc i)))"
      by (auto intro!: exI[of _ 0])
    with True show ?thesis by simp
  next
    case False
    have lr: "(\<forall>i. Suc i < length (point # nextPoint # rest) \<longrightarrow>
        \<not> (snap_serverTime ((point # nextPoint # rest) ! i) < t
           \<and> t < snap_serverTime ((point # nextPoint # rest) ! Suc i)))
      \<longleftrightarrow> (\<forall>i. Suc i < length (nextPoint # rest) \<longrightarrow>
        \<not> (snap_serverTime ((nextPoint # rest) ! i) < t
           \<and> t < snap_serverTime ((nextPoint # rest) ! Suc i)))" (is "?L \<longleftrightarrow> ?R")
    proof
      assume l: ?L
      show ?R
      proof (intro allI impI)
        fix i assume "Suc i < length (nextPoint # rest)"
        then have "Suc (Suc i) < length (point # nextPoint # rest)" by simp
        from l[rule_format, OF this] 
        show "\<not> (snap_serverTime ((nextPoint # rest) ! i) < t
           \<and> t < snap_serverTime ((nextPoint # rest) ! Suc i))" by simp
      qed
    next
      assume r: ?R
      show ?L
      proof (intro allI impI)
        fix i assume i: "Suc i < length (point # nextPoint # rest)"
        show "\<not> (snap_serverTime ((point # nextPoint # rest) ! i) < t
           \<and> t < snap_serverTime ((point # nextPoint # rest) ! Suc i))"
        proof (cases i)
          case 0
          then show ?thesis using False by simp
        next
          case (Suc j)
          then have "Suc j < length (nextPoint # rest)" using i by simp
          from r[rule_format, OF this] show ?thesis using Suc by simp
        qed
      qed
    qed
    have e: "findBracket t (point # nextPoint # rest) = findBracket t (nextPoint # rest)"
      by (simp only: findBracket.simps False if_False)
    have ih: "(findBracket t (nextPoint # rest) = None) = ?R"
      using "1.IH" False by blast
    show ?thesis unfolding e ih by (rule lr[symmetric])
  qed
qed simp_all

lemma zero_width_not_finite:
  "js_divide a 0 = NaN \<or> js_divide a 0 = PosInfinity \<or> js_divide a 0 = NegInfinity"
  by (simp add: js_divide_def)

lemma timePointOf_same: "timePointOf t u u = 0"
  by (simp add: timePointOf_def js_divide_def Let_def)

text \<open>
  C6. When the buffer is not empty and no adjacent pair of updates has the render time strictly
  between its server times, the pass runs with the oldest update as both previous and target;
  the division by the zero-width bracket gives NaN or an infinity, and the blend factor used
  is 0.
\<close>

theorem no_bracket_uses_oldest:
  assumes "serverUpdates s = first # rest"
    and "\<forall>i. Suc i < length (serverUpdates s) \<longrightarrow>
           \<not> (snap_serverTime (serverUpdates s ! i) < clientTime s
              \<and> clientTime s < snap_serverTime (serverUpdates s ! Suc i))"
  shows "timelinePair (clientTime s) first (serverUpdates s) = (first, first)
       \<and> js_divide (snap_serverTime first - clientTime s)
            (snap_serverTime first - snap_serverTime first) \<in> {NaN, PosInfinity, NegInfinity}
       \<and> timePointOf (clientTime s) first first = 0
       \<and> processNetworkUpdates interpolation s =
           andThen
             (renderPlayers interpolation first first 0 0 (players (last (serverUpdates s))) s)
             (\<lambda>s'. if \<not> opt_clientPrediction (opts s') \<and> \<not> naiveApproach (opts s')
                    then renderLocalPlayer interpolation first first 0 (last (serverUpdates s)) s'
                    else Normal s')"
proof -
  have n: "findBracket (clientTime s) (serverUpdates s) = None"
    using assms(2) by (simp only: findBracket_None_iff)
  then have p: "timelinePair (clientTime s) first (serverUpdates s) = (first, first)"
    by (simp add: timelinePair_def)
  have d: "js_divide (snap_serverTime first - clientTime s)
            (snap_serverTime first - snap_serverTime first) \<in> {NaN, PosInfinity, NegInfinity}"
    using zero_width_not_finite[of "snap_serverTime first - clientTime s"] by auto
  have "processNetworkUpdates interpolation s =
           andThen
             (renderPlayers interpolation first first 0 0 (players (last (serverUpdates s))) s)
             (\<lambda>s'. if \<not> opt_clientPrediction (opts s') \<and> \<not> naiveApproach (opts s')
                    then renderLocalPlayer interpolation first first 0 (last (serverUpdates s)) s'
                    else Normal s')"
    using p[unfolded assms(1)] assms(1)
    by (simp add: processNetworkUpdates_def timePointOf_same Let_def del: last.simps
        cong del: if_weak_cong)
  with p d show ?thesis by (simp add: timePointOf_same)
qed

theorem no_bracket_uses_oldest_witness:
  "serverUpdates ex_late = [ex_update 10 None, ex_update 11 None]
   \<and> clientTime ex_late = 11.5
   \<and> timelinePair (clientTime ex_late) (ex_update 10 None) (serverUpdates ex_late)
       = (ex_update 10 None, ex_update 10 None)
   \<and> js_divide (snap_serverTime (ex_update 10 None) - clientTime ex_late)
        (snap_serverTime (ex_update 10 None) - snap_serverTime (ex_update 10 None)) = NegInfinity
   \<and> timePointOf (clientTime ex_late) (ex_update 10 None) (ex_update 10 None) = 0"
proof -
  have u: "serverUpdates ex_late = ex_update 10 None # [ex_update 11 None]"
    by (simp add: ex_late_def)
  have t: "clientTime ex_late = 11.5" by (simp add: ex_late_def)
  have b: "\<forall>i. Suc i < length (serverUpdates ex_late) \<longrightarrow>
           \<not> (snap_serverTime (serverUpdates ex_late ! i) < clientTime ex_late
              \<and> clientTime ex_late < snap_serverTime (serverUpdates ex_late ! Suc i))"
    by (simp add: u t ex_update_def)
  have d: "js_divide (snap_serverTime (ex_update 10 None) - clientTime ex_late)
        (snap_serverTime (ex_update 10 None) - snap_serverTime (ex_update 10 None)) = NegInfinity"
    by (simp add: t ex_update_def js_divide_def)
  note w = no_bracket_uses_oldest[OF u b, of 1]
  from w have p: "timelinePair (clientTime ex_late) (ex_update 10 None) (serverUpdates ex_late)
       = (ex_update 10 None, ex_update 10 None)"
    and z: "timePointOf (clientTime ex_late) (ex_update 10 None) (ex_update 10 None) = 0"
    by blast+
  show ?thesis using u t p d z by blast
qed

subsection \<open>Input capture\<close>

text \<open>The replacement acts on the first period only, which is the decimal point.\<close>

lemma replace_at_point:
  "a \<notin> set w \<Longrightarrow> replace a b (w @ a # f) = w @ b # f"
  by (induction w) auto

lemma replace_no_point: "a \<notin> set w \<Longrightarrow> replace a b w = w"
  by (induction w) auto

text \<open>
  C8. A capture of a non-empty input list, with a local player set and a network attached,
  sends the string \<open>i.\<close>, the inputs joined by \<open>-\<close>, a period, the decimal string of the
  game time with its period replaced by \<open>-\<close>, a period, and the decimal string of the new
  sequence number; the frame with these inputs, this time and this sequence number goes to
  the tail of the local player's pending inputs.
\<close>

theorem capture_message:
  assumes "input \<noteq> []" and "localPlayer s = Some r" and "network s"
  shows "sent (updateInput toString input s) =
           sent s @ [''i.'' @ join ''-'' input @ ''.''
                      @ replace (CHR ''.'') (CHR ''-'') (toString (game_time (game s))) @ ''.''
                      @ toString (of_int (inputSeq s + 1))]
       \<and> player_inputs (getPlayer (updateInput toString input s) r) =
           player_inputs (getPlayer s r)
             @ [\<lparr> inputs = input, time = game_time (game s), seq = inputSeq s + 1 \<rparr>]
       \<and> inputSeq (updateInput toString input s) = inputSeq s + 1"
  using assms by (simp add: updateInput_def Let_def onPlayer_def getPlayer_def pushInput_def)

lemma ex_connected_facts:
  "localPlayer ex_connected = Some 0" "network ex_connected" "inputSeq ex_connected = 6"
  "game_time (game ex_connected) = 12.345" "sent ex_connected = []"
  "player_inputs (getPlayer ex_connected 0) = []"
  by (simp_all add: ex_connected_def ex_client_def setLocalPlayer_def addPlayer_def initial_def
      ex_game_def getPlayer_def ex_player_def Let_def)

theorem capture_message_witness:
  "[''up'', ''left''] \<noteq> [] \<and> localPlayer ex_connected = Some 0 \<and> network ex_connected
   \<and> sent (updateInput ex_toString [''up'', ''left''] ex_connected) = [''i.up-left.12-345.7'']
   \<and> player_inputs (getPlayer (updateInput ex_toString [''up'', ''left''] ex_connected) 0) =
        [\<lparr> inputs = [''up'', ''left''], time = 12.345, seq = 7 \<rparr>]"
  using capture_message[of "[''up'', ''left'']" ex_connected 0 ex_toString]
  by (simp add: ex_connected_facts ex_toString_def)

subsection \<open>Sequence numbers over a session\<close>

lemma numbered_step:
  assumes "map seq (pushed s) = map int [1..<Suc (length (pushed s))]"
    and "inputSeq s = int (length (pushed s))"
  shows "map seq (pushed (state_of (step toString gameUpdate playerUpdate c s)))
           = map int [1..<Suc (length (pushed (state_of (step toString gameUpdate playerUpdate c s))))]
       \<and> inputSeq (state_of (step toString gameUpdate playerUpdate c s))
           = int (length (pushed (state_of (step toString gameUpdate playerUpdate c s))))"
proof -
  let ?s' = "state_of (step toString gameUpdate playerUpdate c s)"
  have "untouched ?s' = untouched s
      \<or> (\<exists>data. untouched ?s' = untouched (pushUpdate data s))
      \<or> (\<exists>f. untouched ?s' = (opts s, serverUpdates s, inputSeq s + 1, pushed s @ [f])
               \<and> seq f = inputSeq s + 1)"
    unfolding untouched_step by (cases c) (auto simp: untouched_updateInput)
  then have "(inputSeq ?s' = inputSeq s \<and> pushed ?s' = pushed s)
      \<or> (\<exists>f. inputSeq ?s' = inputSeq s + 1 \<and> pushed ?s' = pushed s @ [f]
               \<and> seq f = inputSeq s + 1)"
    unfolding untouched_pushUpdate by (auto simp: untouched_def)
  then show ?thesis
  proof
    assume "inputSeq ?s' = inputSeq s \<and> pushed ?s' = pushed s"
    then show ?thesis using assms by simp
  next
    assume "\<exists>f. inputSeq ?s' = inputSeq s + 1 \<and> pushed ?s' = pushed s @ [f]
               \<and> seq f = inputSeq s + 1"
    then show ?thesis using assms by auto
  qed
qed

lemma numbered_run:
  assumes "map seq (pushed s) = map int [1..<Suc (length (pushed s))]"
    and "inputSeq s = int (length (pushed s))"
  shows "map seq (pushed (run toString gameUpdate playerUpdate cs s))
           = map int [1..<Suc (length (pushed (run toString gameUpdate playerUpdate cs s)))]
       \<and> inputSeq (run toString gameUpdate playerUpdate cs s)
           = int (length (pushed (run toString gameUpdate playerUpdate cs s)))"
  using assms
proof (induction cs arbitrary: s)
  case Nil
  then show ?case by simp
next
  case (Cons c cs)
  from numbered_step[OF Cons.prems, of toString gameUpdate playerUpdate c]
  show ?case unfolding run.simps by (intro Cons.IH) simp_all
qed

lemma numbered_positive:
  assumes "map seq fs = map int [1..<Suc (length fs)]" and "f \<in> set fs"
  shows "1 \<le> seq f"
proof -
  from assms(2) have "seq f \<in> set (map seq fs)" by simp
  then have "seq f \<in> set (map int [1..<Suc (length fs)])" by (simp only: assms(1))
  then obtain n where "n \<in> set [1..<Suc (length fs)]" "seq f = int n"
    unfolding set_map by blast
  then show ?thesis by (simp del: upt_Suc)
qed

text \<open>
  C10. The sequence counter is 0 when the client is created, and \<^verbatim>\<open>updateInput\<close> adds 1 to
  it exactly when the polled input is not empty and a local player is set. In every session
  that starts from the created client, whatever calls it makes, the frames handed to
  \<^verbatim>\<open>pushInput\<close> carry the sequence numbers 1, 2, 3, ... in this order and the counter is
  the number of frames captured; so every frame has a sequence number of at least 1, and a
  scan for the sequence number 0 finds none of them.
\<close>

theorem sequence_numbers:
  "inputSeq (initial options g) = 0
   \<and> inputSeq (updateInput toString input s)
       = (if input \<noteq> [] \<and> localPlayer s \<noteq> None then inputSeq s + 1 else inputSeq s)
   \<and> map seq (pushed (run toString gameUpdate playerUpdate cs (initial options g)))
       = map int [1..<Suc (length (pushed (run toString gameUpdate playerUpdate cs (initial options g))))]
   \<and> inputSeq (run toString gameUpdate playerUpdate cs (initial options g))
       = int (length (pushed (run toString gameUpdate playerUpdate cs (initial options g))))
   \<and> (\<forall>f \<in> set (pushed (run toString gameUpdate playerUpdate cs (initial options g))). 1 \<le> seq f)
   \<and> findSeqIndex 0 (pushed (run toString gameUpdate playerUpdate cs (initial options g))) 0 = None"
proof -
  let ?final = "run toString gameUpdate playerUpdate cs (initial options g)"
  have i: "map seq (pushed (initial options g))
             = map int [1..<Suc (length (pushed (initial options g)))]"
    "inputSeq (initial options g) = int (length (pushed (initial options g)))"
    by (simp_all add: initial_def)
  note n = numbered_run[OF i, of toString gameUpdate playerUpdate cs]
  have u: "inputSeq (updateInput toString input s)
       = (if input \<noteq> [] \<and> localPlayer s \<noteq> None then inputSeq s + 1 else inputSeq s)"
    by (simp add: updateInput_def Let_def onPlayer_def split: option.splits)
  have p: "\<forall>f \<in> set (pushed ?final). 1 \<le> seq f"
    using numbered_positive n by blast
  then have "0 \<notin> seq ` set (pushed ?final)" by force
  then have z: "findSeqIndex 0 (pushed ?final) 0 = None" by (simp add: findSeqIndex_None)
  have "inputSeq (initial options g) = 0" by (simp add: initial_def)
  with u n p z show ?thesis by blast
qed

lemma ex_session_pushed:
  "pushed (run ex_toString (\<lambda>delta g. g) (\<lambda>delta p. p) ex_session (initial ex_options ex_game))
     = [\<lparr> inputs = [''up''], time = 12.345, seq = 1 \<rparr>,
        \<lparr> inputs = [''left'', ''up''], time = 12.345, seq = 2 \<rparr>]"
  by (simp add: ex_session_def initial_def onUpdate_def updateInput_def Let_def
      setLocalPlayer_def addPlayer_def onServerUpdate_def pushUpdate_def clientPrediction_def
      player_ops pushInput_def updateServerGhost_def ghost_setPosition_def acknowledge_def
      ex_options_def ex_game_def ex_update_def ex_player_def)

theorem sequence_numbers_witness:
  "map seq (pushed (run ex_toString (\<lambda>delta g. g) (\<lambda>delta p. p) ex_session
       (initial ex_options ex_game))) = [1, 2]
   \<and> inputSeq (run ex_toString (\<lambda>delta g. g) (\<lambda>delta p. p) ex_session
       (initial ex_options ex_game)) = 2
   \<and> \<lparr> inputs = [''up''], time = 12.345, seq = 1 \<rparr>
       \<in> set (pushed (run ex_toString (\<lambda>delta g. g) (\<lambda>delta p. p) ex_session
             (initial ex_options ex_game)))
   \<and> 1 \<le> seq \<lparr> inputs = [''up''], time = 12.345, seq = 1 \<rparr>
   \<and> findSeqIndex 0 (pushed (run ex_toString (\<lambda>delta g. g) (\<lambda>delta p. p) ex_session
       (initial ex_options ex_game))) 0 = None"
  using sequence_numbers[of ex_options ex_game ex_toString "[]" "initial ex_options ex_game"
      "\<lambda>delta g. g" "\<lambda>delta p. p" ex_session]
  by (simp add: ex_session_pushed)

subsection \<open>The interpolation pass\<close>

lemmas ex_defs = ex_timeline_def ex_snap_def ex_bullet_def ex_event_def ex_client_def
  ex_options_def ex_game_def ex_player_def initial_def setLocalPlayer_def addPlayer_def

lemmas pass_defs = processNetworkUpdates_def timelinePair_def timePointOf_def js_divide_def
  renderPlayer_def renderLocalPlayer_def lerp_def interpolate_def ghost_setPosition_def
  addBullet_def onEvent_def player_ops Let_def

lemma timePointOf_bracket:
  assumes "snap_serverTime previous < t" and "t < snap_serverTime target"
  shows "timePointOf t previous target
           = (snap_serverTime target - t) / (snap_serverTime target - snap_serverTime previous)"
    and "0 < timePointOf t previous target" and "timePointOf t previous target < 1"
proof -
  have w: "0 < snap_serverTime target - snap_serverTime previous" using assms by simp
  then show e: "timePointOf t previous target
           = (snap_serverTime target - t) / (snap_serverTime target - snap_serverTime previous)"
    by (simp add: timePointOf_def js_divide_def Let_def)
  show "0 < timePointOf t previous target" unfolding e using assms w by simp
  show "timePointOf t previous target < 1" unfolding e using assms w by simp
qed

text \<open>
  Inside a bracket the blend factor is the fraction of the bracket that is still ahead, so
  the position is the one reached from the target towards the previous update by the fraction
  that has elapsed.
\<close>

lemma interpolate_flip:
  assumes "0 \<le> k" and "k \<le> 1"
  shows "interpolate p n k = interpolate n p (1 - k)"
proof -
  have "max 0 (min 1 k) = k" "max 0 (min 1 (1 - k)) = 1 - k" using assms by simp_all
  then show ?thesis by (simp add: interpolate_def algebra_simps)
qed

lemma bracket_blend_reversed:
  assumes "snap_serverTime previous < t" and "t < snap_serverTime target"
  shows "lerp a b (timePointOf t previous target)
           = lerp b a ((t - snap_serverTime previous)
                        / (snap_serverTime target - snap_serverTime previous))"
proof -
  define k where "k = timePointOf t previous target"
  have w: "0 < snap_serverTime target - snap_serverTime previous" using assms by simp
  have e: "k = (snap_serverTime target - t)
                 / (snap_serverTime target - snap_serverTime previous)"
    unfolding k_def using assms by (rule timePointOf_bracket)
  have f: "(t - snap_serverTime previous)
             / (snap_serverTime target - snap_serverTime previous) = 1 - k"
    unfolding e using w by (simp add: field_simps)
  have r: "0 \<le> k" "k \<le> 1"
    using timePointOf_bracket(2,3)[OF assms] unfolding k_def by simp_all
  show ?thesis
    unfolding f k_def[symmetric] lerp_def
    by (simp add: interpolate_flip[OF r])
qed

text \<open>
  C1. Two updates at server times 10 and 11 report the remote player at (0, 0) and at
  (10, 0). The bracket is found and the blend factor is within [0, 1]; at the render time
  10.5 the player is drawn at the midpoint (5, 0). At the render time 10.25, a quarter of the
  way into the bracket, it is drawn at (7.5, 0), and at 10.75 at (2.5, 0): the position
  runs from the target's report to the previous one as the render time grows.
\<close>

theorem blend_runs_from_target_to_previous:
  "findBracket 10.25 (serverUpdates (ex_timeline 10.25))
     = Some (ex_snap 10 0 [] [], ex_snap 11 10 [ex_bullet] [ex_event])
   \<and> timePointOf 10.25 (ex_snap 10 0 [] []) (ex_snap 11 10 [ex_bullet] [ex_event]) = 0.75
   \<and> player_position (getPlayer (state_of (processNetworkUpdates 1 (ex_timeline 10.25))) 1)
       = \<lparr> px = 7.5, py = 0 \<rparr>
   \<and> player_position (getPlayer (state_of (processNetworkUpdates 1 (ex_timeline 10.5))) 1)
       = \<lparr> px = 5, py = 0 \<rparr>
   \<and> player_position (getPlayer (state_of (processNetworkUpdates 1 (ex_timeline 10.75))) 1)
       = \<lparr> px = 2.5, py = 0 \<rparr>"
proof -
  have b: "findBracket 10.25 (serverUpdates (ex_timeline 10.25))
     = Some (ex_snap 10 0 [] [], ex_snap 11 10 [ex_bullet] [ex_event])"
    by (simp add: ex_timeline_def ex_snap_def)
  have t: "timePointOf 10.25 (ex_snap 10 0 [] []) (ex_snap 11 10 [ex_bullet] [ex_event]) = 0.75"
    by (simp add: timePointOf_def js_divide_def ex_snap_def)
  have q1: "player_position (getPlayer (state_of (processNetworkUpdates 1 (ex_timeline 10.25))) 1)
       = \<lparr> px = 7.5, py = 0 \<rparr>"
    by (simp add: ex_defs pass_defs)
  have q2: "player_position (getPlayer (state_of (processNetworkUpdates 1 (ex_timeline 10.5))) 1)
       = \<lparr> px = 5, py = 0 \<rparr>"
    by (simp add: ex_defs pass_defs)
  have q3: "player_position (getPlayer (state_of (processNetworkUpdates 1 (ex_timeline 10.75))) 1)
       = \<lparr> px = 2.5, py = 0 \<rparr>"
    by (simp add: ex_defs pass_defs)
  show ?thesis using b t q1 q2 q3 by blast
qed

text \<open>
  C4. The target update of the pass carries one bullet and one event, and two remote players
  are drawn. The pass hands the bullet to the bullet system twice and the event to the game
  twice, once for each player drawn. Each copy of the bullet starts at (7.5, 0), where its
  firing player has just been drawn, not at the reported (3, 4).
\<close>

theorem target_replayed_for_each_player:
  "findBracket (clientTime (ex_timeline 10.25)) (serverUpdates (ex_timeline 10.25))
     = Some (ex_snap 10 0 [] [], ex_snap 11 10 [ex_bullet] [ex_event])
   \<and> bulletsAdded (game (ex_timeline 10.25)) = []
   \<and> eventsFired (game (ex_timeline 10.25)) = []
   \<and> bulletsAdded (game (state_of (processNetworkUpdates 1 (ex_timeline 10.25))))
       = [(1, \<lparr> firedBy = ''p2'', bullet_x = 7.5, bullet_y = 0 \<rparr>),
          (1, \<lparr> firedBy = ''p2'', bullet_x = 7.5, bullet_y = 0 \<rparr>)]
   \<and> eventsFired (game (state_of (processNetworkUpdates 1 (ex_timeline 10.25))))
       = [(''e1'', ''hit'', Some 2), (''e1'', ''hit'', Some 2)]"
proof -
  have b: "findBracket (clientTime (ex_timeline 10.25)) (serverUpdates (ex_timeline 10.25))
     = Some (ex_snap 10 0 [] [], ex_snap 11 10 [ex_bullet] [ex_event])"
    by (simp add: ex_timeline_def ex_snap_def)
  have i: "bulletsAdded (game (ex_timeline 10.25)) = []" "eventsFired (game (ex_timeline 10.25)) = []"
    by (simp_all add: ex_defs Let_def)
  have a: "bulletsAdded (game (state_of (processNetworkUpdates 1 (ex_timeline 10.25))))
       = [(1, \<lparr> firedBy = ''p2'', bullet_x = 7.5, bullet_y = 0 \<rparr>),
          (1, \<lparr> firedBy = ''p2'', bullet_x = 7.5, bullet_y = 0 \<rparr>)]"
    by (simp add: ex_defs pass_defs)
  have e: "eventsFired (game (state_of (processNetworkUpdates 1 (ex_timeline 10.25))))
       = [(''e1'', ''hit'', Some 2), (''e1'', ''hit'', Some 2)]"
    by (simp add: ex_defs pass_defs)
  show ?thesis using b i a e by blast
qed

end
